theory Spec2Isabelle
  imports Complex_Main
begin

section \<open>Conventions of the embedding\<close>

text \<open>
  The Python sources compute with floats; the embedding uses the reals, so every
  arithmetic statement below is about the exact value of the expression the source
  writes. Wall-clock readings (\<^verbatim>\<open>time.time()\<close>) are passed in as the argument
  \<open>now\<close>. Every call of the pointer sink (\<^verbatim>\<open>pyautogui\<close>) stands inside a
  \<^verbatim>\<open>try\<close>/\<^verbatim>\<open>except\<close> block in the source: the argument \<open>ok\<close> of a
  method says whether that call returned normally, and the calls a method issues are
  returned as a list beside the new state.
\<close>

section \<open>The cursor controller (cursor\_controller.py)\<close>

datatype sink_call =
    SinkClick
  | SinkRightClick
  | SinkDoubleClick
  | SinkMouseDown
  | SinkMouseUp
  | SinkScroll int

record cursor_controller =
  screen_width :: int
  screen_height :: int
  smoothing_factor :: real
  acceleration_factor :: real
  prev_x :: real
  prev_y :: real
  velocity_x :: real
  velocity_y :: real
  position_history :: "(real \<times> real) list"
  cursor_enabled :: bool
  last_fist_time :: real
  fist_count :: nat
  inverse_cursor :: bool
  adaptive_sensitivity :: real
  adaptive_smoothing :: real
  adaptive_acceleration :: real
  is_holding :: bool
  last_click_time :: real
  hold_start_time :: real
  last_scroll_time :: real
  movement_history :: "real list"

text \<open>Attributes that \<^verbatim>\<open>__init__\<close> sets and no method ever writes again.\<close>

definition velocity_smoothing :: real where
  "velocity_smoothing = 0.15"

definition jitter_filter_size :: nat where
  "jitter_filter_size = 3"

definition click_cooldown :: real where
  "click_cooldown = 0.15"

definition hold_threshold :: real where
  "hold_threshold = 0.3"

definition scroll_cooldown :: real where
  "scroll_cooldown = 0.1"

text \<open>\<^verbatim>\<open>__init__\<close>; the two arguments are what \<^verbatim>\<open>pyautogui.size()\<close> returns.\<close>

definition init_controller :: "int \<Rightarrow> int \<Rightarrow> cursor_controller" where
  "init_controller w h =
     \<lparr> screen_width = w, screen_height = h,
       smoothing_factor = 0.2, acceleration_factor = 1.2,
       prev_x = 0, prev_y = 0, velocity_x = 0, velocity_y = 0,
       position_history = [],
       cursor_enabled = True, last_fist_time = 0, fist_count = 0,
       inverse_cursor = False,
       adaptive_sensitivity = 1.0, adaptive_smoothing = 0.2, adaptive_acceleration = 1.2,
       is_holding = False, last_click_time = 0, hold_start_time = 0,
       last_scroll_time = 0, movement_history = [] \<rparr>"

definition set_adaptive_settings ::
  "cursor_controller \<Rightarrow> real \<Rightarrow> real \<Rightarrow> real \<Rightarrow> cursor_controller" where
  "set_adaptive_settings c sensitivity smoothing acceleration =
     (let c1 = c\<lparr>adaptive_sensitivity := max 0.3 (min 2.0 sensitivity)\<rparr>;
          c2 = c1\<lparr>adaptive_smoothing := max 0.1 (min 0.8 smoothing)\<rparr>;
          c3 = c2\<lparr>adaptive_acceleration := max 1.0 (min 3.0 acceleration)\<rparr>
      in c3\<lparr>smoothing_factor := adaptive_smoothing c3\<rparr>)"

definition handle_pinch_gesture ::
  "cursor_controller \<Rightarrow> real \<Rightarrow> bool \<Rightarrow> bool \<Rightarrow> cursor_controller \<times> sink_call list" where
  "handle_pinch_gesture c now is_pinch_active ok =
     (if is_pinch_active then
        (if \<not> is_holding c then
           (if hold_start_time c = 0 then (c\<lparr>hold_start_time := now\<rparr>, [])
            else if now - hold_start_time c > hold_threshold then
              ((if ok then c\<lparr>is_holding := True\<rparr> else c), [SinkMouseDown])
            else (c, []))
         else (c, []))
      else
        (let (c1, calls) =
           (if is_holding c then
              ((if ok then c\<lparr>is_holding := False\<rparr> else c), [SinkMouseUp])
            else if hold_start_time c > 0 then
              (if now - hold_start_time c < hold_threshold
                  \<and> now - last_click_time c > click_cooldown then
                 ((if ok then c\<lparr>last_click_time := now\<rparr> else c), [SinkClick])
               else (c, []))
            else (c, []))
         in (c1\<lparr>hold_start_time := 0\<rparr>, calls)))"

definition click :: "cursor_controller \<Rightarrow> real \<Rightarrow> bool \<Rightarrow> cursor_controller \<times> sink_call list" where
  "click c now ok =
     (if now - last_click_time c > click_cooldown then
        ((if ok then c\<lparr>last_click_time := now\<rparr> else c), [SinkClick])
      else (c, []))"

definition right_click :: "cursor_controller \<Rightarrow> real \<Rightarrow> bool \<Rightarrow> cursor_controller \<times> sink_call list" where
  "right_click c now ok =
     (if now - last_click_time c > click_cooldown then
        ((if ok then c\<lparr>last_click_time := now\<rparr> else c), [SinkRightClick])
      else (c, []))"

text \<open>
  \<^verbatim>\<open>scroll\<close>: a direction other than "up" and "down" issues no call, and the
  time stamp is still written.
\<close>

definition scroll ::
  "cursor_controller \<Rightarrow> real \<Rightarrow> string \<Rightarrow> bool \<Rightarrow> cursor_controller \<times> sink_call list" where
  "scroll c now direction ok =
     (if now - last_scroll_time c > scroll_cooldown then
        (if direction = ''up'' then
           ((if ok then c\<lparr>last_scroll_time := now\<rparr> else c), [SinkScroll 3])
         else if direction = ''down'' then
           ((if ok then c\<lparr>last_scroll_time := now\<rparr> else c), [SinkScroll (- 3)])
         else (c\<lparr>last_scroll_time := now\<rparr>, []))
      else (c, []))"

definition double_click :: "cursor_controller \<Rightarrow> real \<Rightarrow> bool \<Rightarrow> cursor_controller \<times> sink_call list" where
  "double_click c now ok =
     (if now - last_click_time c > click_cooldown then
        ((if ok then c\<lparr>last_click_time := now\<rparr> else c), [SinkDoubleClick])
      else (c, []))"

text \<open>
  \<^verbatim>\<open>reset_state\<close>: the release is attempted when the controller holds, and the
  fields are cleared whether or not the release raised (\<^verbatim>\<open>except: pass\<close>).
\<close>

definition reset_state :: "cursor_controller \<Rightarrow> cursor_controller \<times> sink_call list" where
  "reset_state c =
     (c\<lparr>is_holding := False, hold_start_time := 0,
        position_history := [], movement_history := [],
        velocity_x := 0, velocity_y := 0, prev_x := 0, prev_y := 0,
        fist_count := 0\<rparr>,
      (if is_holding c then [SinkMouseUp] else []))"

subsection \<open>Traces of requests\<close>

datatype action = ActClick | ActRightClick | ActDoubleClick

fun do_action ::
  "cursor_controller \<Rightarrow> real \<Rightarrow> action \<Rightarrow> bool \<Rightarrow> cursor_controller \<times> sink_call list" where
  "do_action c now ActClick ok = click c now ok"
| "do_action c now ActRightClick ok = right_click c now ok"
| "do_action c now ActDoubleClick ok = double_click c now ok"

text \<open>
  A trace of requests, each a time and an action, with every sink call succeeding: the
  final state and the requests that fired, in order.
\<close>

fun run_requests ::
  "cursor_controller \<Rightarrow> (real \<times> action) list \<Rightarrow> cursor_controller \<times> (real \<times> action) list" where
  "run_requests c [] = (c, [])"
| "run_requests c ((now, a) # rs) =
     (let (c1, calls) = do_action c now a True;
          (c2, fired) = run_requests c1 rs
      in (c2, (if calls = [] then [] else [(now, a)]) @ fired))"

text \<open>
  The gate as the specification words it, for comparison with the code: a request is
  inside its cooldown window when an action of the same kind fired less than 0.15s
  before it.
\<close>

definition recently_fired_same_kind :: "(real \<times> action) list \<Rightarrow> real \<Rightarrow> action \<Rightarrow> bool" where
  "recently_fired_same_kind fired now a = list_ex (\<lambda>(t, b). b = a \<and> now - t < 0.15) fired"

text \<open>
  A trace of pinch samples fed to \<^verbatim>\<open>handle_pinch_gesture\<close>: each sample is the
  time, the pinch flag and whether the sink call (if one is issued) succeeds.
\<close>

fun run_pinch ::
  "cursor_controller \<Rightarrow> (real \<times> bool \<times> bool) list \<Rightarrow> cursor_controller \<times> sink_call list" where
  "run_pinch c [] = (c, [])"
| "run_pinch c ((now, active, ok) # xs) =
     (let (c1, calls1) = handle_pinch_gesture c now active ok;
          (c2, calls2) = run_pinch c1 xs
      in (c2, calls1 @ calls2))"

text \<open>Samples with the pinch active and the sink succeeding, at the given times.\<close>

definition held :: "real list \<Rightarrow> (real \<times> bool \<times> bool) list" where
  "held ts = map (\<lambda>u. (u, True, True)) ts"

text \<open>
  A request to the dispatcher: one of the three click actions, a scroll with its
  direction, or a pinch sample handed to \<^verbatim>\<open>handle_pinch_gesture\<close>.
\<close>

datatype request = ReqAction action | ReqScroll string | ReqPinch bool

fun do_request ::
  "cursor_controller \<Rightarrow> real \<Rightarrow> request \<Rightarrow> bool \<Rightarrow> cursor_controller \<times> sink_call list" where
  "do_request c now (ReqAction a) ok = do_action c now a ok"
| "do_request c now (ReqScroll direction) ok = scroll c now direction ok"
| "do_request c now (ReqPinch is_pinch_active) ok = handle_pinch_gesture c now is_pinch_active ok"

text \<open>
  A trace of requests, each with its time and with the flag that says whether the sink
  call it issues (if any) succeeds: the final state and the sink calls issued, each
  with its time and its success flag.
\<close>

fun run_dispatch ::
  "cursor_controller \<Rightarrow> (real \<times> request \<times> bool) list
     \<Rightarrow> cursor_controller \<times> (real \<times> sink_call \<times> bool) list" where
  "run_dispatch c [] = (c, [])"
| "run_dispatch c ((now, r, ok) # rs) =
     (let (c1, calls) = do_request c now r ok;
          (c2, issued) = run_dispatch c1 rs
      in (c2, map (\<lambda>k. (now, k, ok)) calls @ issued))"

text \<open>
  The time of the last click, right-click or double-click call of a list of issued
  calls that the sink accepted, and \<open>s\<close> when there is none.
\<close>

fun is_click_call :: "sink_call \<Rightarrow> bool" where
  "is_click_call SinkClick = True"
| "is_click_call SinkRightClick = True"
| "is_click_call SinkDoubleClick = True"
| "is_click_call _ = False"

fun last_accepted_click :: "real \<Rightarrow> (real \<times> sink_call \<times> bool) list \<Rightarrow> real" where
  "last_accepted_click s [] = s"
| "last_accepted_click s ((t, k, ok) # xs) =
     last_accepted_click (if ok \<and> is_click_call k then t else s) xs"

section \<open>The hand tracker (hand\_tracker.py)\<close>

text \<open>
  A landmark is the triple \<^verbatim>\<open>[id, x, y]\<close> that \<^verbatim>\<open>get_landmarks\<close> builds, with
  integer pixel coordinates. With landmarks of this type no operation of the methods
  below can raise, so the \<^verbatim>\<open>except\<close> branches of the source (the label "error")
  have no counterpart in the embedding.
\<close>

type_synonym landmark = "nat \<times> int \<times> int"

record hand_tracker =
  cursor_finger :: string
  gesture_history :: "string list"
  pinch_history :: "bool list"

text \<open>Attributes that \<^verbatim>\<open>__init__\<close> sets and no method ever writes again.\<close>

definition tip_ids :: "nat list" where
  "tip_ids = [4, 8, 12, 16, 20]"

definition pip_ids :: "nat list" where
  "pip_ids = [3, 6, 10, 14, 18]"

definition pinch_stability_count :: nat where
  "pinch_stability_count = 3"

definition pinch_threshold :: real where
  "pinch_threshold = 40"

definition init_tracker :: hand_tracker where
  "init_tracker = \<lparr> cursor_finger = ''index'', gesture_history = [], pinch_history = [] \<rparr>"

definition set_cursor_finger :: "hand_tracker \<Rightarrow> string \<Rightarrow> hand_tracker" where
  "set_cursor_finger tr finger_type =
     (if finger_type \<in> set [''index'', ''pinky''] then tr\<lparr>cursor_finger := finger_type\<rparr> else tr)"

definition lm_x :: "landmark \<Rightarrow> int" where
  "lm_x l = fst (snd l)"

definition lm_y :: "landmark \<Rightarrow> int" where
  "lm_y l = snd (snd l)"

text \<open>
  \<^verbatim>\<open>get_finger_positions\<close>: the dictionary from names to positions; of each entry
  the coordinates are kept.
\<close>

definition get_finger_positions :: "hand_tracker \<Rightarrow> landmark list \<Rightarrow> (string \<rightharpoonup> int \<times> int)" where
  "get_finger_positions tr landmarks =
     (if length landmarks < 21 then Map.empty
      else
        (let finger_names = [''thumb'', ''index'', ''middle'', ''ring'', ''pinky''];
             fp1 = fold (\<lambda>(name, tip_id) fp.
                      if tip_id < length landmarks
                      then fp(name \<mapsto> (lm_x (landmarks ! tip_id), lm_y (landmarks ! tip_id)))
                      else fp)
                    (zip finger_names tip_ids) Map.empty;
             cursor_tip_id = (if cursor_finger tr = ''index'' then 8 else 20);
             cursor_pip_id = (if cursor_finger tr = ''index'' then 6 else 18);
             fp2 = (if cursor_tip_id < length landmarks
                    then fp1(''cursor_finger'' \<mapsto>
                           (lm_x (landmarks ! cursor_tip_id), lm_y (landmarks ! cursor_tip_id)))
                    else fp1);
             fp3 = (if cursor_pip_id < length landmarks
                    then fp2(''cursor_finger_pip'' \<mapsto>
                           (lm_x (landmarks ! cursor_pip_id), lm_y (landmarks ! cursor_pip_id)))
                    else fp2)
         in (if length landmarks > 4
             then fp3(''thumb_tip'' \<mapsto> (lm_x (landmarks ! 4), lm_y (landmarks ! 4)))
             else fp3)))"

definition calculate_distance :: "int \<times> int \<Rightarrow> int \<times> int \<Rightarrow> real" where
  "calculate_distance point1 point2 =
     sqrt (real_of_int ((fst point1 - fst point2)\<^sup>2 + (snd point1 - snd point2)\<^sup>2))"

definition is_finger_up :: "landmark list \<Rightarrow> nat \<Rightarrow> bool" where
  "is_finger_up landmarks finger_idx =
     (if finger_idx = 0 then
        (if length landmarks \<le> 4 then False
         else
           (let thumb_tip = landmarks ! 4;
                thumb_ip = landmarks ! 3;
                wrist = landmarks ! 0;
                tip_dist = sqrt (real_of_int ((lm_x thumb_tip - lm_x wrist)\<^sup>2
                                              + (lm_y thumb_tip - lm_y wrist)\<^sup>2));
                ip_dist = sqrt (real_of_int ((lm_x thumb_ip - lm_x wrist)\<^sup>2
                                             + (lm_y thumb_ip - lm_y wrist)\<^sup>2))
            in tip_dist > ip_dist))
      else
        (if finger_idx \<ge> length tip_ids \<or> finger_idx \<ge> length pip_ids then False
         else
           (let tip_id = tip_ids ! finger_idx;
                pip_id = pip_ids ! finger_idx
            in if tip_id \<ge> length landmarks \<or> pip_id \<ge> length landmarks then False
               else lm_y (landmarks ! tip_id) < lm_y (landmarks ! pip_id))))"

text \<open>
  \<^verbatim>\<open>detect_pinch_gesture\<close> returns the stable flag and the distance;
  \<open>None\<close> stands for \<^verbatim>\<open>float('inf')\<close>.
\<close>

definition detect_pinch_gesture ::
  "hand_tracker \<Rightarrow> landmark list \<Rightarrow> hand_tracker \<times> bool \<times> real option" where
  "detect_pinch_gesture tr landmarks =
     (if length landmarks < 21 then (tr, False, None)
      else
        (let finger_positions = get_finger_positions tr landmarks
         in case (finger_positions ''thumb_tip'', finger_positions ''index'') of
              (Some thumb_tip, Some index_tip) \<Rightarrow>
                (let pinch_distance = calculate_distance thumb_tip index_tip;
                     h1 = pinch_history tr @ [pinch_distance < pinch_threshold];
                     h2 = (if length h1 > pinch_stability_count then tl h1 else h1);
                     stable_pinch = (length h2 \<ge> pinch_stability_count
                                     \<and> sum_list (map of_bool h2) \<ge> pinch_stability_count - 1)
                 in (tr\<lparr>pinch_history := h2\<rparr>, stable_pinch, Some pinch_distance))
            | _ \<Rightarrow> (tr, False, None)))"

definition detect_gestures :: "hand_tracker \<Rightarrow> landmark list \<Rightarrow> hand_tracker \<times> string" where
  "detect_gestures tr landmarks =
     (if length landmarks < 21 then (tr, ''no_hand'')
      else
        (let fingers_up = map (is_finger_up landmarks) [0..<5];
             total_fingers = count_list fingers_up True;
             (tr1, is_pinching, pinch_dist) = detect_pinch_gesture tr landmarks
         in if is_pinching then
              ((if cursor_finger tr1 \<noteq> ''pinky'' then set_cursor_finger tr1 ''pinky'' else tr1),
               ''pinch'')
            else
              (let cursor_finger_idx = (if cursor_finger tr1 = ''index'' then 1 else 4);
                   rest =
                     (if length fingers_up \<ge> 5 \<and> fingers_up ! 1 \<and> fingers_up ! 2
                         \<and> \<not> fingers_up ! 3 \<and> \<not> fingers_up ! 4 then ''peace''
                      else if total_fingers \<le> 1 then ''fist''
                      else if total_fingers \<ge> 4 then ''open_hand''
                      else ''other'')
               in if cursor_finger_idx < length fingers_up \<and> fingers_up ! cursor_finger_idx then
                    (let other_fingers =
                           filter (\<lambda>i. i \<noteq> cursor_finger_idx \<and> i \<noteq> 0) [0..<5]
                     in if \<not> list_ex (\<lambda>i. fingers_up ! i) other_fingers then
                          ((if cursor_finger tr1 \<noteq> ''index''
                            then set_cursor_finger tr1 ''index'' else tr1),
                           ''point'')
                        else (tr1, rest))
                  else (tr1, rest))))"

subsection \<open>Traces of frames and example frames\<close>

text \<open>A sequence of frames fed to \<^verbatim>\<open>detect_pinch_gesture\<close>, with the flag of each call.\<close>

fun pinch_trace :: "hand_tracker \<Rightarrow> landmark list list \<Rightarrow> hand_tracker \<times> bool list" where
  "pinch_trace tr [] = (tr, [])"
| "pinch_trace tr (f # fs) =
     (let (tr1, stable, d) = detect_pinch_gesture tr f;
          (tr2, flags) = pinch_trace tr1 fs
      in (tr2, stable # flags))"

text \<open>
  The raw pinch sample of a frame as the specification words it: the distance between
  thumb tip (landmark 4) and index tip (landmark 8) is below the threshold 40.
\<close>

definition raw_pinch :: "landmark list \<Rightarrow> bool" where
  "raw_pinch landmarks =
     (sqrt (real_of_int ((lm_x (landmarks ! 4) - lm_x (landmarks ! 8))\<^sup>2
                         + (lm_y (landmarks ! 4) - lm_y (landmarks ! 8))\<^sup>2)) < 40)"

text \<open>The newest \<open>k\<close> entries of a list (all of it when it is shorter).\<close>

definition newest :: "nat \<Rightarrow> 'a list \<Rightarrow> 'a list" where
  "newest k xs = drop (length xs - k) xs"

text \<open>The frame of 21 landmarks with the ids 0 to 20 at the positions \<open>p\<close>.\<close>

definition frame_of :: "(nat \<Rightarrow> int \<times> int) \<Rightarrow> landmark list" where
  "frame_of p = map (\<lambda>i. (i, p i)) [0..<21]"

text \<open>
  Example poses: thumb tip and index tip close together and far apart; only the index
  finger extended (the thumb folded); the same with the thumb tip at the index tip.
\<close>

definition near_pose :: "nat \<Rightarrow> int \<times> int" where
  "near_pose i = (if i = 4 then (100, 100) else if i = 8 then (110, 120) else (0, 0))"

definition far_pose :: "nat \<Rightarrow> int \<times> int" where
  "far_pose i = (if i = 4 then (100, 100) else if i = 8 then (300, 100) else (0, 0))"

definition index_only_pose :: "nat \<Rightarrow> int \<times> int" where
  "index_only_pose i =
     (if i = 0 then (200, 400)
      else if i = 3 then (110, 400)
      else if i = 4 then (150, 400)
      else if i = 6 then (200, 100)
      else if i = 8 then (200, 50)
      else if i \<in> set [10, 14, 18] then (250, 150)
      else if i \<in> set [12, 16, 20] then (250, 200)
      else (0, 0))"

definition pinching_index_pose :: "nat \<Rightarrow> int \<times> int" where
  "pinching_index_pose i = (if i = 4 then (190, 60) else index_only_pose i)"

section \<open>The settings optimizer (adaptive\_game.py)\<close>

text \<open>
  A settings point is the dictionary with the three keys "sensitivity", "smoothing" and
  "acceleration"; \<open>param_get\<close> and \<open>param_set\<close> read and write it by key.
\<close>

record settings =
  sensitivity :: real
  smoothing :: real
  acceleration :: real

record optimizer =
  best_settings :: settings
  best_score :: real
  search_queue :: "(settings \<times> real) list"
  visited_settings :: "(real \<times> real \<times> real) set"
  optimization_history :: "(settings \<times> real) list"

definition init_optimizer :: optimizer where
  "init_optimizer =
     \<lparr> best_settings = \<lparr> sensitivity = 1.0, smoothing = 0.3, acceleration = 1.5 \<rparr>,
       best_score = 0.0, search_queue = [], visited_settings = {},
       optimization_history = [] \<rparr>"

definition param_get :: "settings \<Rightarrow> string \<Rightarrow> real" where
  "param_get s param =
     (if param = ''sensitivity'' then sensitivity s
      else if param = ''smoothing'' then smoothing s
      else acceleration s)"

definition param_set :: "settings \<Rightarrow> string \<Rightarrow> real \<Rightarrow> settings" where
  "param_set s param v =
     (if param = ''sensitivity'' then s\<lparr>sensitivity := v\<rparr>
      else if param = ''smoothing'' then s\<lparr>smoothing := v\<rparr>
      else s\<lparr>acceleration := v\<rparr>)"

definition get_min_value :: "string \<Rightarrow> real" where
  "get_min_value param =
     (case map_of [(''sensitivity'', 0.3), (''smoothing'', 0.1), (''acceleration'', 1.0)] param of
        Some v \<Rightarrow> v | None \<Rightarrow> 0.1)"

definition get_max_value :: "string \<Rightarrow> real" where
  "get_max_value param =
     (case map_of [(''sensitivity'', 2.0), (''smoothing'', 0.8), (''acceleration'', 3.0)] param of
        Some v \<Rightarrow> v | None \<Rightarrow> 2.0)"

definition step_size :: "string \<Rightarrow> real" where
  "step_size param =
     (if param = ''sensitivity'' then 0.1 else if param = ''smoothing'' then 0.05 else 0.1)"

definition generate_neighbors :: "settings \<Rightarrow> settings list" where
  "generate_neighbors s =
     concat (map (\<lambda>param.
         [param_set s param (min (param_get s param + step_size param) (get_max_value param)),
          param_set s param (max (param_get s param - step_size param) (get_min_value param))])
       [''sensitivity'', ''smoothing'', ''acceleration''])"

text \<open>
  \<^verbatim>\<open>round(x, 2)\<close> on the reals: the nearest multiple of 0.01, a tie going to the
  even one.
\<close>

definition round_half_even :: "real \<Rightarrow> int" where
  "round_half_even y =
     (let f = \<lfloor>y\<rfloor>; r = y - of_int f
      in if r < 1 / 2 then f else if r > 1 / 2 then f + 1 else if even f then f else f + 1)"

definition py_round2 :: "real \<Rightarrow> real" where
  "py_round2 x = of_int (round_half_even (x * 100)) / 100"

definition settings_to_key :: "settings \<Rightarrow> real \<times> real \<times> real" where
  "settings_to_key s =
     (py_round2 (sensitivity s), py_round2 (smoothing s), py_round2 (acceleration s))"

definition interpret_feedback :: "string \<Rightarrow> real" where
  "interpret_feedback feedback =
     (case map_of [(''much_faster'', 1.5), (''faster'', 1.2), (''perfect'', 2.0),
                   (''slower'', 0.8), (''much_slower'', 0.6), (''sharper'', 1.3),
                   (''smoother'', 1.1)] feedback of
        Some w \<Rightarrow> w | None \<Rightarrow> 1.0)"

definition get_next_settings :: "optimizer \<Rightarrow> optimizer \<times> settings" where
  "get_next_settings opt =
     (case search_queue opt of
        [] \<Rightarrow> (opt, best_settings opt)
      | (next_settings, _) # q \<Rightarrow> (opt\<lparr>search_queue := q\<rparr>, next_settings))"

text \<open>The body of the loop over the neighbours in \<^verbatim>\<open>bfs_optimize\<close>.\<close>

definition enqueue_neighbor :: "real \<Rightarrow> settings \<Rightarrow> optimizer \<Rightarrow> optimizer" where
  "enqueue_neighbor current_score neighbor opt =
     (let setting_key = settings_to_key neighbor
      in if setting_key \<notin> visited_settings opt then
           opt\<lparr>search_queue := search_queue opt @ [(neighbor, current_score)],
               visited_settings := insert setting_key (visited_settings opt)\<rparr>
         else opt)"

definition bfs_optimize :: "optimizer \<Rightarrow> real \<Rightarrow> string \<Rightarrow> optimizer \<times> settings" where
  "bfs_optimize opt current_score user_feedback =
     (let current_settings = best_settings opt;
          neighbors = generate_neighbors current_settings;
          opt1 = fold (enqueue_neighbor current_score) neighbors opt;
          feedback_weight = interpret_feedback user_feedback;
          adjusted_score = current_score * feedback_weight;
          opt2 = (if adjusted_score > best_score opt1
                  then opt1\<lparr>best_score := adjusted_score, best_settings := current_settings\<rparr>
                  else opt1)
      in get_next_settings opt2)"

text \<open>A sequence of optimization calls, each a score and a feedback label.\<close>

fun run_optimizer :: "optimizer \<Rightarrow> (real \<times> string) list \<Rightarrow> optimizer" where
  "run_optimizer opt [] = opt"
| "run_optimizer opt ((score, feedback) # calls) =
     run_optimizer (fst (bfs_optimize opt score feedback)) calls"

text \<open>The dedup keys of the frontier entries, in order.\<close>

definition frontier_keys :: "optimizer \<Rightarrow> (real \<times> real \<times> real) list" where
  "frontier_keys opt = map (\<lambda>e. settings_to_key (fst e)) (search_queue opt)"

definition dedup_inv :: "optimizer \<Rightarrow> bool" where
  "dedup_inv opt = (distinct (frontier_keys opt) \<and> set (frontier_keys opt) \<subseteq> visited_settings opt)"

section \<open>Coordinate mapping of the cursor controller (cursor\_controller.py)\<close>

text \<open>
  The arguments of \<^verbatim>\<open>map_coordinates\<close> are Python integers (a landmark
  coordinate and the frame shape), so the two normalizing divisions raise
  \<^verbatim>\<open>ZeroDivisionError\<close> on a zero divisor; the method has no handler.
\<close>

datatype py_error = ZeroDivisionError

text \<open>\<^verbatim>\<open>int(x)\<close> truncates towards zero.\<close>

definition py_int :: "real \<Rightarrow> int" where
  "py_int x = (if 0 \<le> x then \<lfloor>x\<rfloor> else \<lceil>x\<rceil>)"

definition np_clip :: "real \<Rightarrow> real \<Rightarrow> real \<Rightarrow> real" where
  "np_clip a a_min a_max = min a_max (max a a_min)"

definition np_linspace :: "real \<Rightarrow> real \<Rightarrow> nat \<Rightarrow> real list" where
  "np_linspace start stop n =
     (if n = 1 then [start]
      else map (\<lambda>i. start + real i * ((stop - start) / real (n - 1))) [0..<n])"

text \<open>
  \<^verbatim>\<open>apply_jitter_filter\<close>: appending to the deque of maximal length 3 keeps the
  newest 3 positions.
\<close>

definition apply_jitter_filter ::
  "cursor_controller \<Rightarrow> real \<Rightarrow> real \<Rightarrow> cursor_controller \<times> real \<times> real" where
  "apply_jitter_filter c x y =
     (let h = newest jitter_filter_size (position_history c @ [(x, y)]);
          c1 = c\<lparr>position_history := h\<rparr>
      in if length h < 2 then (c1, x, y)
         else
           (let weights0 = np_linspace 0.3 1.0 (length h);
                weights = map (\<lambda>w. w / sum_list weights0) weights0;
                filtered_x = sum_list (map (\<lambda>(pos, weight). fst pos * weight) (zip h weights));
                filtered_y = sum_list (map (\<lambda>(pos, weight). snd pos * weight) (zip h weights))
            in (c1, filtered_x, filtered_y)))"

definition map_coordinates ::
  "cursor_controller \<Rightarrow> int \<Rightarrow> int \<Rightarrow> int \<Rightarrow> int
     \<Rightarrow> py_error + ((int \<times> int) \<times> cursor_controller)" where
  "map_coordinates c hand_x hand_y frame_width frame_height =
     (if \<not> cursor_enabled c then Inr ((py_int (prev_x c), py_int (prev_y c)), c)
      else
        (let margin_x = 40; margin_y = 40;
             effective_width = frame_width - (2 * margin_x);
             effective_height = frame_height - (2 * margin_y)
         in if effective_width = 0 then Inl ZeroDivisionError
            else if effective_height = 0 then Inl ZeroDivisionError
            else
              (let norm_x0 = np_clip (real_of_int (hand_x - margin_x) / real_of_int effective_width) 0 1;
                   norm_y0 = np_clip (real_of_int (hand_y - margin_y) / real_of_int effective_height) 0 1;
                   norm_x = (if inverse_cursor c then 1 - norm_x0 else norm_x0);
                   norm_y = (if inverse_cursor c then 1 - norm_y0 else norm_y0);
                   target_x = norm_x * real_of_int (screen_width c) * adaptive_sensitivity c;
                   target_y = norm_y * real_of_int (screen_height c) * adaptive_sensitivity c;
                   (c1, filtered_x, filtered_y) = apply_jitter_filter c target_x target_y
               in if prev_x c1 = 0 \<and> prev_y c1 = 0 then
                    Inr ((py_int filtered_x, py_int filtered_y),
                         c1\<lparr>prev_x := filtered_x, prev_y := filtered_y\<rparr>)
                  else
                    (let velocity_x' = filtered_x - prev_x c1;
                         velocity_y' = filtered_y - prev_y c1;
                         smooth_velocity_x0 = velocity_x c1 * velocity_smoothing
                                              + velocity_x' * (1 - velocity_smoothing);
                         smooth_velocity_y0 = velocity_y c1 * velocity_smoothing
                                              + velocity_y' * (1 - velocity_smoothing);
                         velocity_magnitude = sqrt (smooth_velocity_x0\<^sup>2 + smooth_velocity_y0\<^sup>2);
                         smooth_velocity_x = (if velocity_magnitude > 15
                                              then smooth_velocity_x0 * adaptive_acceleration c1
                                              else smooth_velocity_x0);
                         smooth_velocity_y = (if velocity_magnitude > 15
                                              then smooth_velocity_y0 * adaptive_acceleration c1
                                              else smooth_velocity_y0);
                         final_x = max 0 (min (real_of_int (screen_width c1 - 1))
                                              (prev_x c1 + smooth_velocity_x));
                         final_y = max 0 (min (real_of_int (screen_height c1 - 1))
                                              (prev_y c1 + smooth_velocity_y))
                     in Inr ((py_int final_x, py_int final_y),
                             c1\<lparr>velocity_x := smooth_velocity_x, velocity_y := smooth_velocity_y,
                                prev_x := final_x, prev_y := final_y\<rparr>)))))"

text \<open>
  The scaled target point, as the steps before the jitter filter compute it when no
  divisor is zero: margin normalization, inversion, scaling by the screen size and the
  sensitivity.
\<close>

definition scaled_target :: "cursor_controller \<Rightarrow> int \<Rightarrow> int \<Rightarrow> int \<Rightarrow> int \<Rightarrow> real \<times> real" where
  "scaled_target c hand_x hand_y frame_width frame_height =
     (let nx = np_clip (real_of_int (hand_x - 40) / real_of_int (frame_width - 80)) 0 1;
          ny = np_clip (real_of_int (hand_y - 40) / real_of_int (frame_height - 80)) 0 1
      in ((if inverse_cursor c then 1 - nx else nx) * real_of_int (screen_width c)
            * adaptive_sensitivity c,
          (if inverse_cursor c then 1 - ny else ny) * real_of_int (screen_height c)
            * adaptive_sensitivity c))"

section \<open>Settings clamping\<close>

text \<open>
  C7. After \<^verbatim>\<open>set_adaptive_settings(s, sm, a)\<close> the stored sensitivity lies in
  [0.3, 2.0], the stored smoothing in [0.1, 0.8] and the stored acceleration in
  [1.0, 3.0], for all real arguments: a request below the range is stored as the lower
  bound, one above it as the upper bound, one inside it unchanged; nothing is rejected.
  Sensitivity requests of -5 and 99 are stored as 0.3 and 2.0.
\<close>

theorem set_adaptive_settings_clamps:
  "0.3 \<le> adaptive_sensitivity (set_adaptive_settings c s sm a)
   \<and> adaptive_sensitivity (set_adaptive_settings c s sm a) \<le> 2.0
   \<and> 0.1 \<le> adaptive_smoothing (set_adaptive_settings c s sm a)
   \<and> adaptive_smoothing (set_adaptive_settings c s sm a) \<le> 0.8
   \<and> 1.0 \<le> adaptive_acceleration (set_adaptive_settings c s sm a)
   \<and> adaptive_acceleration (set_adaptive_settings c s sm a) \<le> 3.0
   \<and> adaptive_sensitivity (set_adaptive_settings c s sm a)
       = (if s < 0.3 then 0.3 else if 2.0 < s then 2.0 else s)
   \<and> adaptive_smoothing (set_adaptive_settings c s sm a)
       = (if sm < 0.1 then 0.1 else if 0.8 < sm then 0.8 else sm)
   \<and> adaptive_acceleration (set_adaptive_settings c s sm a)
       = (if a < 1.0 then 1.0 else if 3.0 < a then 3.0 else a)
   \<and> adaptive_sensitivity (set_adaptive_settings c (- 5) sm a) = 0.3
   \<and> adaptive_sensitivity (set_adaptive_settings c 99 sm a) = 2.0"
  by (simp add: set_adaptive_settings_def Let_def max_def min_def)

theorem set_adaptive_settings_clamps_witness:
  "adaptive_sensitivity (set_adaptive_settings (init_controller 1920 1080) (- 5) 7 0) = 0.3
   \<and> adaptive_smoothing (set_adaptive_settings (init_controller 1920 1080) (- 5) 7 0) = 0.8
   \<and> adaptive_acceleration (set_adaptive_settings (init_controller 1920 1080) (- 5) 7 0) = 1.0"
  using set_adaptive_settings_clamps [of "init_controller 1920 1080" "- 5" 7 0]
  by simp

section \<open>Stopping tracking\<close>

text \<open>
  C8. \<^verbatim>\<open>reset_state\<close> is idempotent: applied twice it gives the controller state
  that one application gives, and the second application issues no sink call. From
  every state it leaves \<open>is_holding\<close> false and \<open>hold_start_time\<close> 0, and it issues
  exactly one \<^verbatim>\<open>mouseUp\<close> when the controller was holding and no call otherwise.
\<close>

theorem reset_state_idempotent:
  "fst (reset_state (fst (reset_state c))) = fst (reset_state c)
   \<and> snd (reset_state (fst (reset_state c))) = []
   \<and> is_holding (fst (reset_state c)) = False
   \<and> hold_start_time (fst (reset_state c)) = 0
   \<and> snd (reset_state c) = (if is_holding c then [SinkMouseUp] else [])"
  by (simp add: reset_state_def)

section \<open>Cooldown gates of the discrete actions\<close>

text \<open>
  C1 as stated (a request of one of the kinds click, right-click and double-click is
  dropped exactly when less than 0.15s have passed since an action of the same kind
  fired) fails, in three ways. From the initial state a click fires at time 1 and the
  right-click requested at time 1.1 is dropped, although no right-click has fired
  before it. A right-click fires at time 1 and the right-click requested at time 1.15,
  exactly 0.15s later, is dropped. From the initial state a click requested at time
  0.1 is dropped although nothing has fired.
\<close>

theorem per_action_cooldown_counterexample:
  "\<not> (\<forall>rs now a.
        (snd (do_action (fst (run_requests (init_controller 1920 1080) rs)) now a True) = [])
        = recently_fired_same_kind (snd (run_requests (init_controller 1920 1080) rs)) now a)
   \<and> snd (run_requests (init_controller 1920 1080) [(1, ActClick)]) = [(1, ActClick)]
   \<and> snd (do_action (fst (run_requests (init_controller 1920 1080) [(1, ActClick)]))
             (11 / 10) ActRightClick True) = []
   \<and> \<not> recently_fired_same_kind
           (snd (run_requests (init_controller 1920 1080) [(1, ActClick)]))
           (11 / 10) ActRightClick
   \<and> snd (run_requests (init_controller 1920 1080) [(1, ActRightClick)])
       = [(1, ActRightClick)]
   \<and> snd (do_action (fst (run_requests (init_controller 1920 1080) [(1, ActRightClick)]))
             (23 / 20) ActRightClick True) = []
   \<and> \<not> recently_fired_same_kind
           (snd (run_requests (init_controller 1920 1080) [(1, ActRightClick)]))
           (23 / 20) ActRightClick
   \<and> snd (do_action (init_controller 1920 1080) (1 / 10) ActClick True) = []
   \<and> \<not> recently_fired_same_kind
           (snd (run_requests (init_controller 1920 1080) [])) (1 / 10) ActClick"
proof -
  have shared: "snd (run_requests (init_controller 1920 1080) [(1, ActClick)]) = [(1, ActClick)]"
      "snd (do_action (fst (run_requests (init_controller 1920 1080) [(1, ActClick)]))
             (11 / 10) ActRightClick True) = []"
      "\<not> recently_fired_same_kind
           (snd (run_requests (init_controller 1920 1080) [(1, ActClick)]))
           (11 / 10) ActRightClick"
    by (simp_all add: recently_fired_same_kind_def init_controller_def click_def
          right_click_def click_cooldown_def)
  have boundary: "snd (run_requests (init_controller 1920 1080) [(1, ActRightClick)])
       = [(1, ActRightClick)]"
      "snd (do_action (fst (run_requests (init_controller 1920 1080) [(1, ActRightClick)]))
             (23 / 20) ActRightClick True) = []"
      "\<not> recently_fired_same_kind
           (snd (run_requests (init_controller 1920 1080) [(1, ActRightClick)]))
           (23 / 20) ActRightClick"
    by (simp_all add: recently_fired_same_kind_def init_controller_def right_click_def
          click_cooldown_def)
  have initial: "snd (do_action (init_controller 1920 1080) (1 / 10) ActClick True) = []"
      "\<not> recently_fired_same_kind
           (snd (run_requests (init_controller 1920 1080) [])) (1 / 10) ActClick"
    by (simp_all add: recently_fired_same_kind_def init_controller_def click_def
          click_cooldown_def)
  have "\<not> (\<forall>rs now a.
        (snd (do_action (fst (run_requests (init_controller 1920 1080) rs)) now a True) = [])
        = recently_fired_same_kind (snd (run_requests (init_controller 1920 1080) rs)) now a)"
  proof
    assume "\<forall>rs now a.
        (snd (do_action (fst (run_requests (init_controller 1920 1080) rs)) now a True) = [])
        = recently_fired_same_kind (snd (run_requests (init_controller 1920 1080) rs)) now a"
    then have "(snd (do_action (fst (run_requests (init_controller 1920 1080) [(1, ActClick)]))
                  (11 / 10) ActRightClick True) = [])
        = recently_fired_same_kind
            (snd (run_requests (init_controller 1920 1080) [(1, ActClick)]))
            (11 / 10) ActRightClick"
      by blast
    then show False
      using shared(2,3) by simp
  qed
  then show ?thesis
    using shared boundary initial by (intro conjI)
qed

lemma last_accepted_click_append:
  "last_accepted_click s (xs @ ys) = last_accepted_click (last_accepted_click s xs) ys"
  by (induction s xs rule: last_accepted_click.induct) simp_all

lemma do_request_stamp:
  "last_click_time (fst (do_request c now r ok))
     = last_accepted_click (last_click_time c)
         (map (\<lambda>k. (now, k, ok)) (snd (do_request c now r ok)))"
proof (cases r)
  case (ReqAction a)
  then show ?thesis
    by (cases a) (simp_all add: click_def right_click_def double_click_def)
next
  case (ReqScroll d)
  then show ?thesis
    by (simp add: scroll_def)
next
  case (ReqPinch b)
  then show ?thesis
    by (simp add: handle_pinch_gesture_def)
qed

lemma run_dispatch_stamp:
  "last_click_time (fst (run_dispatch c rs))
     = last_accepted_click (last_click_time c) (snd (run_dispatch c rs))"
proof (induction c rs rule: run_dispatch.induct)
  case (1 c)
  show ?case by simp
next
  case (2 c now r ok rs)
  obtain c1 calls where d: "do_request c now r ok = (c1, calls)"
    by (cases "do_request c now r ok") auto
  obtain c2 issued where e: "run_dispatch c1 rs = (c2, issued)"
    by (cases "run_dispatch c1 rs") auto
  have "last_click_time c2 = last_accepted_click (last_click_time c1) issued"
    using "2.IH" [of "(c1, calls)" c1 calls] d e by simp
  moreover have "last_click_time c1
      = last_accepted_click (last_click_time c) (map (\<lambda>k. (now, k, ok)) calls)"
    using do_request_stamp [of c now r ok] d by simp
  ultimately show ?case
    using d e by (simp add: last_accepted_click_append)
qed

lemma do_action_gate:
  "(snd (do_action c now a ok) = []) = (now - last_click_time c \<le> 0.15)"
  by (cases a) (auto simp: click_def right_click_def double_click_def click_cooldown_def)

lemma dispatch_gate:
  "(snd (do_action (fst (run_dispatch (init_controller w h) rs)) now a ok) = [])
     = (now - last_accepted_click 0 (snd (run_dispatch (init_controller w h) rs)) \<le> 0.15)"
  using run_dispatch_stamp [of "init_controller w h" rs]
  by (simp add: do_action_gate init_controller_def)

lemma click_family_calls:
  shows "snd (click c now ok) = (if now - last_click_time c > 0.15 then [SinkClick] else [])"
    and "snd (right_click c now ok)
           = (if now - last_click_time c > 0.15 then [SinkRightClick] else [])"
    and "snd (double_click c now ok)
           = (if now - last_click_time c > 0.15 then [SinkDoubleClick] else [])"
    and "last_click_time (fst (click c now True))
           = (if now - last_click_time c > 0.15 then now else last_click_time c)"
    and "last_click_time (fst (right_click c now True))
           = (if now - last_click_time c > 0.15 then now else last_click_time c)"
    and "last_click_time (fst (double_click c now True))
           = (if now - last_click_time c > 0.15 then now else last_click_time c)"
    and "last_scroll_time (fst (click c now ok)) = last_scroll_time c"
    and "last_scroll_time (fst (right_click c now ok)) = last_scroll_time c"
    and "last_scroll_time (fst (double_click c now ok)) = last_scroll_time c"
  by (simp_all add: click_def right_click_def double_click_def click_cooldown_def)

lemma click_family_states:
  shows "fst (click c now ok)
           = (if now - last_click_time c > 0.15 \<and> ok then c\<lparr>last_click_time := now\<rparr> else c)"
    and "fst (right_click c now ok)
           = (if now - last_click_time c > 0.15 \<and> ok then c\<lparr>last_click_time := now\<rparr> else c)"
    and "fst (double_click c now ok)
           = (if now - last_click_time c > 0.15 \<and> ok then c\<lparr>last_click_time := now\<rparr> else c)"
  by (simp_all add: click_def right_click_def double_click_def click_cooldown_def)

lemma pinch_handler_stamp:
  shows "snd (handle_pinch_gesture c now False ok)
           = (if is_holding c then [SinkMouseUp]
              else if hold_start_time c > 0 \<and> now - hold_start_time c < 0.3
                      \<and> now - last_click_time c > 0.15 then [SinkClick]
              else [])"
    and "last_click_time (fst (handle_pinch_gesture c now active ok))
           = (if SinkClick \<in> set (snd (handle_pinch_gesture c now active ok)) \<and> ok then now
              else last_click_time c)"
    and "last_scroll_time (fst (handle_pinch_gesture c now active ok)) = last_scroll_time c"
  by (simp_all add: handle_pinch_gesture_def hold_threshold_def click_cooldown_def)

lemma scroll_calls:
  shows "snd (scroll c now d ok)
           = (if now - last_scroll_time c > 0.1
              then (if d = ''up'' then [SinkScroll 3]
                    else if d = ''down'' then [SinkScroll (- 3)] else [])
              else [])"
    and "last_click_time (fst (scroll c now d ok)) = last_click_time c"
    and "fst (scroll c now d ok)
           = (if now - last_scroll_time c > 0.1 \<and> (ok \<or> d \<notin> set [''up'', ''down''])
              then c\<lparr>last_scroll_time := now\<rparr> else c)"
  by (simp_all add: scroll_def scroll_cooldown_def)

lemma scroll_gate:
  "(snd (scroll c now d ok) = [] \<and> fst (scroll c now d ok) = c)
     = (now - last_scroll_time c \<le> 0.1)"
proof (cases "now - last_scroll_time c > 0.1")
  case True
  have stamp: "last_scroll_time (fst (scroll c now d ok)) = now" if "snd (scroll c now d ok) = []"
    using that True by (simp add: scroll_def scroll_cooldown_def split: if_splits)
  have "\<not> (snd (scroll c now d ok) = [] \<and> fst (scroll c now d ok) = c)"
  proof
    assume a: "snd (scroll c now d ok) = [] \<and> fst (scroll c now d ok) = c"
    then have "last_scroll_time c = now"
      using stamp by simp
    then show False
      using True by simp
  qed
  then show ?thesis
    using True by simp
next
  case False
  then show ?thesis
    by (simp add: scroll_def scroll_cooldown_def)
qed

text \<open>
  C1, amended. Click, right-click and double-click share one gate on the one time
  stamp \<open>last_click_time\<close>: a request of any of the three kinds is dropped exactly
  when no more than 0.15s have passed since that stamp, and otherwise issues its sink
  call. The stamp is 0 initially; a click, right-click or double-click call writes it
  when the sink accepts the call and leaves the state unchanged when the sink raises;
  the pinch handler writes it when it issues its quick click and the sink accepts it;
  nothing else writes it. So after every trace of requests the stamp is the time of
  the last accepted click, right-click or double-click call of whichever kind, or its
  initial value when there was none. Scroll is dropped exactly when no more than 0.1s
  have passed since \<open>last_scroll_time\<close>, which only scroll writes (when the sink
  accepts the call, or when the direction is neither "up" nor "down"); scroll never
  writes \<open>last_click_time\<close>.
\<close>

theorem click_family_shares_one_cooldown:
  "snd (click c now ok) = (if now - last_click_time c > 0.15 then [SinkClick] else [])
   \<and> snd (right_click c now ok) = (if now - last_click_time c > 0.15 then [SinkRightClick] else [])
   \<and> snd (double_click c now ok) = (if now - last_click_time c > 0.15 then [SinkDoubleClick] else [])
   \<and> last_click_time (fst (click c now True))
       = (if now - last_click_time c > 0.15 then now else last_click_time c)
   \<and> last_click_time (fst (right_click c now True))
       = (if now - last_click_time c > 0.15 then now else last_click_time c)
   \<and> last_click_time (fst (double_click c now True))
       = (if now - last_click_time c > 0.15 then now else last_click_time c)
   \<and> snd (scroll c now d ok)
       = (if now - last_scroll_time c > 0.1
          then (if d = ''up'' then [SinkScroll 3] else if d = ''down'' then [SinkScroll (- 3)] else [])
          else [])
   \<and> last_scroll_time (fst (click c now ok)) = last_scroll_time c
   \<and> last_scroll_time (fst (right_click c now ok)) = last_scroll_time c
   \<and> last_scroll_time (fst (double_click c now ok)) = last_scroll_time c
   \<and> last_click_time (fst (scroll c now d ok)) = last_click_time c
   \<and> (snd (do_action c now a ok) = []) = (now - last_click_time c \<le> 0.15)
   \<and> fst (click c now ok)
       = (if now - last_click_time c > 0.15 \<and> ok then c\<lparr>last_click_time := now\<rparr> else c)
   \<and> fst (right_click c now ok)
       = (if now - last_click_time c > 0.15 \<and> ok then c\<lparr>last_click_time := now\<rparr> else c)
   \<and> fst (double_click c now ok)
       = (if now - last_click_time c > 0.15 \<and> ok then c\<lparr>last_click_time := now\<rparr> else c)
   \<and> snd (handle_pinch_gesture c now False ok)
       = (if is_holding c then [SinkMouseUp]
          else if hold_start_time c > 0 \<and> now - hold_start_time c < 0.3
                  \<and> now - last_click_time c > 0.15 then [SinkClick]
          else [])
   \<and> last_click_time (fst (handle_pinch_gesture c now active ok))
       = (if SinkClick \<in> set (snd (handle_pinch_gesture c now active ok)) \<and> ok then now
          else last_click_time c)
   \<and> last_scroll_time (fst (handle_pinch_gesture c now active ok)) = last_scroll_time c
   \<and> (snd (scroll c now d ok) = [] \<and> fst (scroll c now d ok) = c)
       = (now - last_scroll_time c \<le> 0.1)
   \<and> fst (scroll c now d ok)
       = (if now - last_scroll_time c > 0.1 \<and> (ok \<or> d \<notin> set [''up'', ''down''])
          then c\<lparr>last_scroll_time := now\<rparr> else c)
   \<and> last_click_time (fst (run_dispatch c rs))
       = last_accepted_click (last_click_time c) (snd (run_dispatch c rs))
   \<and> (snd (do_action (fst (run_dispatch (init_controller w h) rs)) now a ok) = [])
       = (now - last_accepted_click 0 (snd (run_dispatch (init_controller w h) rs)) \<le> 0.15)"
  by (intro conjI)
     (rule click_family_calls click_family_states pinch_handler_stamp scroll_calls scroll_gate
        do_action_gate run_dispatch_stamp dispatch_gate)+

theorem click_family_shares_one_cooldown_witness:
  "snd (run_dispatch (init_controller 1920 1080)
          [(1, ReqPinch True, True), (11 / 10, ReqPinch False, True)])
     = [(11 / 10, SinkClick, True)]
   \<and> snd (do_action
          (fst (run_dispatch (init_controller 1920 1080)
                  [(1, ReqPinch True, True), (11 / 10, ReqPinch False, True)]))
          (6 / 5) ActDoubleClick True) = []
   \<and> snd (do_action
          (fst (run_dispatch (init_controller 1920 1080)
                  [(1, ReqAction ActClick, False), (11 / 10, ReqScroll ''up'', True)]))
          (6 / 5) ActRightClick True) = [SinkRightClick]"
proof -
  have quick: "snd (run_dispatch (init_controller 1920 1080)
          [(1, ReqPinch True, True), (11 / 10, ReqPinch False, True)])
     = [(11 / 10, SinkClick, True)]"
    by (simp add: init_controller_def handle_pinch_gesture_def hold_threshold_def
          click_cooldown_def)
  have failed: "snd (run_dispatch (init_controller 1920 1080)
          [(1, ReqAction ActClick, False), (11 / 10, ReqScroll ''up'', True)])
     = [(1, SinkClick, False), (11 / 10, SinkScroll 3, True)]"
    by (simp add: init_controller_def click_def scroll_def click_cooldown_def
          scroll_cooldown_def)
  have a: "(snd (do_action
          (fst (run_dispatch (init_controller 1920 1080)
                  [(1, ReqPinch True, True), (11 / 10, ReqPinch False, True)]))
          (6 / 5) ActDoubleClick True) = [])
        = (6 / 5 - last_accepted_click 0 [(11 / 10, SinkClick, True)] \<le> (0.15 :: real))"
    using click_family_shares_one_cooldown
      [where w = 1920 and h = 1080 and now = "6 / 5" and a = ActDoubleClick and ok = True
         and rs = "[(1, ReqPinch True, True), (11 / 10, ReqPinch False, True)]"
         and c = "init_controller 1920 1080" and d = "''up''" and active = False]
    unfolding quick by (elim conjE)
  have b: "(snd (do_action
          (fst (run_dispatch (init_controller 1920 1080)
                  [(1, ReqAction ActClick, False), (11 / 10, ReqScroll ''up'', True)]))
          (6 / 5) ActRightClick True) = [])
        = (6 / 5 - last_accepted_click 0 [(1, SinkClick, False), (11 / 10, SinkScroll 3, True)]
             \<le> (0.15 :: real))"
    using click_family_shares_one_cooldown
      [where w = 1920 and h = 1080 and now = "6 / 5" and a = ActRightClick and ok = True
         and rs = "[(1, ReqAction ActClick, False), (11 / 10, ReqScroll ''up'', True)]"
         and c = "init_controller 1920 1080" and d = "''up''" and active = False]
    unfolding failed by (elim conjE)
  have c: "snd (do_action
          (fst (run_dispatch (init_controller 1920 1080)
                  [(1, ReqAction ActClick, False), (11 / 10, ReqScroll ''up'', True)]))
          (6 / 5) ActRightClick True) \<noteq> []"
    using b by simp
  have d: "snd (do_action c0 t ActRightClick True) \<noteq> []
           \<Longrightarrow> snd (do_action c0 t ActRightClick True) = [SinkRightClick]" for c0 t
    by (simp add: right_click_def split: if_splits)
  show ?thesis
    using quick a d [OF c] by simp
qed

section \<open>Click or hold\<close>

lemma run_pinch_append:
  "run_pinch c (xs @ ys) =
     (let (c1, e1) = run_pinch c xs; (c2, e2) = run_pinch c1 ys in (c2, e1 @ e2))"
  by (induction xs arbitrary: c) (auto simp: Let_def split: prod.splits)

lemma holding_ignores_held:
  "is_holding c \<Longrightarrow> run_pinch c (held ts) = (c, [])"
  by (induction ts) (auto simp: held_def handle_pinch_gesture_def)

lemma pending_waits:
  "\<not> is_holding c \<Longrightarrow> hold_start_time c \<noteq> 0
   \<Longrightarrow> \<forall>u \<in> set ts. \<not> (u - hold_start_time c > hold_threshold)
   \<Longrightarrow> run_pinch c (held ts) = (c, [])"
  by (induction ts) (auto simp: held_def handle_pinch_gesture_def)

lemma pending_begins_hold:
  "\<not> is_holding c \<Longrightarrow> hold_start_time c \<noteq> 0
   \<Longrightarrow> \<exists>u \<in> set ts. u - hold_start_time c > hold_threshold
   \<Longrightarrow> run_pinch c (held ts) = (c\<lparr>is_holding := True\<rparr>, [SinkMouseDown])"
proof (induction ts)
  case Nil
  then show ?case by simp
next
  case (Cons u ts)
  show ?case
  proof (cases "u - hold_start_time c > hold_threshold")
    case True
    have "run_pinch (c\<lparr>is_holding := True\<rparr>) (held ts) = (c\<lparr>is_holding := True\<rparr>, [])"
      by (rule holding_ignores_held) simp
    then show ?thesis
      using True Cons.prems(1,2)
      by (simp add: held_def handle_pinch_gesture_def)
  next
    case False
    then have "\<exists>u \<in> set ts. u - hold_start_time c > hold_threshold"
      using Cons.prems(3) by auto
    then have "run_pinch c (held ts) = (c\<lparr>is_holding := True\<rparr>, [SinkMouseDown])"
      using Cons.IH Cons.prems(1,2) by blast
    then show ?thesis
      using False Cons.prems(1,2)
      by (simp add: held_def handle_pinch_gesture_def)
  qed
qed

lemma idle_records_start:
  "\<not> is_holding c \<Longrightarrow> hold_start_time c = 0
   \<Longrightarrow> handle_pinch_gesture c t0 True ok = (c\<lparr>hold_start_time := t0\<rparr>, [])"
  by (simp add: handle_pinch_gesture_def)

lemma quick_release_clicks:
  assumes "\<not> is_holding c" "hold_start_time c = 0" "0 < t0"
    and "sorted (t0 # ts @ [t])" "t - t0 < 0.3" "t - last_click_time c > 0.15"
  shows "run_pinch c ((t0, True, True) # held ts @ [(t, False, True)])
         = (c\<lparr>last_click_time := t\<rparr>, [SinkClick])"
proof -
  let ?p = "c\<lparr>hold_start_time := t0\<rparr>"
  have le: "\<forall>u \<in> set ts. u \<le> t"
    using assms(4) by (auto simp: sorted_append)
  have "\<forall>u \<in> set ts. \<not> (u - hold_start_time ?p > hold_threshold)"
    using le assms(5) by (auto simp: hold_threshold_def)
  then have w: "run_pinch ?p (held ts) = (?p, [])"
    using assms(1,3) by (intro pending_waits) auto
  have r: "handle_pinch_gesture ?p t False True = (c\<lparr>last_click_time := t\<rparr>, [SinkClick])"
    using assms(1,2,3,5,6)
    by (simp add: handle_pinch_gesture_def hold_threshold_def click_cooldown_def)
  show ?thesis
    using idle_records_start [OF assms(1,2), of t0 True] w r
    by (simp add: run_pinch_append)
qed

lemma long_pinch_holds:
  assumes "\<not> is_holding c" "hold_start_time c = 0" "0 < t0"
    and "\<exists>u \<in> set ts. u - t0 > 0.3"
  shows "run_pinch c ((t0, True, True) # held ts)
           = (c\<lparr>hold_start_time := t0, is_holding := True\<rparr>, [SinkMouseDown])"
    and "run_pinch c ((t0, True, True) # held ts @ [(t, False, True)])
           = (c, [SinkMouseDown, SinkMouseUp])"
proof -
  let ?p = "c\<lparr>hold_start_time := t0\<rparr>"
  have "\<exists>u \<in> set ts. u - hold_start_time ?p > hold_threshold"
    using assms(4) by (simp add: hold_threshold_def)
  then have b: "run_pinch ?p (held ts) = (?p\<lparr>is_holding := True\<rparr>, [SinkMouseDown])"
    using assms(1,3) by (intro pending_begins_hold) auto
  show "run_pinch c ((t0, True, True) # held ts)
           = (c\<lparr>hold_start_time := t0, is_holding := True\<rparr>, [SinkMouseDown])"
    using idle_records_start [OF assms(1,2), of t0 True] b by simp
  have r: "handle_pinch_gesture (?p\<lparr>is_holding := True\<rparr>) t False True = (c, [SinkMouseUp])"
    using assms(1,2) by (simp add: handle_pinch_gesture_def)
  show "run_pinch c ((t0, True, True) # held ts @ [(t, False, True)])
           = (c, [SinkMouseDown, SinkMouseUp])"
    using idle_records_start [OF assms(1,2), of t0 True] b r
    by (simp add: run_pinch_append)
qed

text \<open>
  C2. The controller is idle (not holding, no start recorded) and the pinch becomes
  active at a time \<open>t0 > 0\<close>; further active samples follow at the times \<open>ts\<close>,
  then an inactive sample at \<open>t\<close>; every sink call succeeds. If the sample times
  are in order, \<open>t - t0 < 0.3\<close> and more than 0.15s have passed since
  \<open>last_click_time\<close>, the calls issued over the whole trace are exactly one click. If
  some active sample lies more than 0.3s after \<open>t0\<close>, the active samples issue
  exactly one \<^verbatim>\<open>mouseDown\<close> and the inactive sample adds exactly one
  \<^verbatim>\<open>mouseUp\<close>; no click is issued.
\<close>

theorem pinch_click_or_hold:
  assumes "\<not> is_holding c" and "hold_start_time c = 0" and "0 < t0"
  shows "(sorted (t0 # ts @ [t]) \<and> t - t0 < 0.3 \<and> t - last_click_time c > 0.15
            \<longrightarrow> snd (run_pinch c ((t0, True, True) # held ts @ [(t, False, True)])) = [SinkClick])
         \<and> ((\<exists>u \<in> set ts. u - t0 > 0.3)
            \<longrightarrow> snd (run_pinch c ((t0, True, True) # held ts)) = [SinkMouseDown]
              \<and> snd (run_pinch c ((t0, True, True) # held ts @ [(t, False, True)]))
                  = [SinkMouseDown, SinkMouseUp])"
  using quick_release_clicks [OF assms, of ts t] long_pinch_holds(1) [OF assms, of ts] long_pinch_holds(2) [OF assms, of ts t]
  by simp

theorem pinch_click_or_hold_witness:
  "snd (run_pinch (init_controller 1920 1080)
          ((10, True, True) # held [10.1] @ [(10.2, False, True)])) = [SinkClick]
   \<and> snd (run_pinch (init_controller 1920 1080)
          ((10, True, True) # held [10.2, 10.4] @ [(10.5, False, True)]))
       = [SinkMouseDown, SinkMouseUp]"
proof -
  let ?c = "init_controller 1920 1080"
  have idle: "\<not> is_holding ?c" "hold_start_time ?c = 0"
    by (simp_all add: init_controller_def)
  have pos: "(0 :: real) < 10"
    by simp
  have quick: "sorted (10 # [10.1] @ [10.2 :: real]) \<and> (10.2 :: real) - 10 < 0.3
               \<and> 10.2 - last_click_time ?c > 0.15"
    by (simp add: init_controller_def)
  have long: "\<exists>u \<in> set [10.2, 10.4 :: real]. u - 10 > 0.3"
    by (rule bexI [of _ "10.4"]) simp_all
  show ?thesis
    using pinch_click_or_hold [OF idle pos, of "[10.1]" "10.2"] quick
          pinch_click_or_hold [OF idle pos, of "[10.2, 10.4]" "10.5"] long
    by blast
qed

section \<open>Pinch debouncing\<close>

lemma sqrt_less_40: "(sqrt x < 40) = (x < 1600)"
proof -
  have "sqrt 1600 = 40"
    by (rule real_sqrt_unique) simp_all
  then show ?thesis
    by (metis real_sqrt_less_iff)
qed

lemma length_frame_of: "length (frame_of p) = 21"
  by (simp add: frame_of_def)

lemma frame_of_nth: "i < 21 \<Longrightarrow> frame_of p ! i = (i, p i)"
  by (simp add: frame_of_def)

lemma fp_thumb_tip:
  "21 \<le> length lms \<Longrightarrow>
   get_finger_positions tr lms ''thumb_tip'' = Some (lm_x (lms ! 4), lm_y (lms ! 4))"
  by (simp add: get_finger_positions_def Let_def)

lemma fp_index:
  "21 \<le> length lms \<Longrightarrow>
   get_finger_positions tr lms ''index'' = Some (lm_x (lms ! 8), lm_y (lms ! 8))"
  by (simp add: get_finger_positions_def Let_def tip_ids_def)

lemma detect_pinch_step:
  "21 \<le> length lms \<Longrightarrow>
   detect_pinch_gesture tr lms =
     (let h1 = pinch_history tr @ [raw_pinch lms];
          h2 = (if length h1 > 3 then tl h1 else h1)
      in (tr\<lparr>pinch_history := h2\<rparr>,
          length h2 \<ge> 3 \<and> sum_list (map of_bool h2) \<ge> (2::nat),
          Some (calculate_distance (lm_x (lms ! 4), lm_y (lms ! 4))
                  (lm_x (lms ! 8), lm_y (lms ! 8)))))"
  by (simp add: detect_pinch_gesture_def fp_thumb_tip fp_index Let_def raw_pinch_def
        calculate_distance_def pinch_threshold_def pinch_stability_count_def)

lemma detect_pinch_short: "length lms < 21 \<Longrightarrow> detect_pinch_gesture tr lms = (tr, False, None)"
  by (simp add: detect_pinch_gesture_def)

lemma sum_of_bool_filter: "sum_list (map of_bool bs) = length (filter (\<lambda>b. b) bs)"
  by (induction bs) auto

lemma window_push:
  assumes "length h \<le> 3"
  shows "(if length (h @ [b]) > 3 then tl (h @ [b]) else h @ [b]) = newest 3 (h @ [b])"
proof (cases "length h = 3")
  case True
  then have "h \<noteq> []"
    by auto
  then show ?thesis
    using True by (simp add: newest_def drop_Suc)
next
  case False
  then show ?thesis
    using assms by (simp add: newest_def)
qed

lemma length_newest: "length (newest k xs) \<le> k"
  by (simp add: newest_def)

lemma newest_append: "newest 3 (newest 3 xs @ ys) = newest 3 (xs @ ys)"
  by (cases "length xs \<le> 3") (auto simp: newest_def drop_append add.commute)

lemma fst_pinch_trace_Cons:
  "fst (pinch_trace tr (f # fs)) = fst (pinch_trace (fst (detect_pinch_gesture tr f)) fs)"
  by (simp add: Let_def split: prod.splits)

lemma pinch_trace_window:
  "length (pinch_history tr) \<le> 3 \<Longrightarrow>
   pinch_history (fst (pinch_trace tr frames))
     = newest 3 (pinch_history tr @ map raw_pinch (filter (\<lambda>f. 21 \<le> length f) frames))"
proof (induction frames arbitrary: tr)
  case Nil
  then show ?case by (simp add: newest_def)
next
  case (Cons f fs)
  show ?case
  proof (cases "21 \<le> length f")
    case True
    let ?h = "pinch_history tr @ [raw_pinch f]"
    let ?tr1 = "tr\<lparr>pinch_history := newest 3 ?h\<rparr>"
    let ?rest = "map raw_pinch (filter (\<lambda>f. 21 \<le> length f) fs)"
    have step: "fst (detect_pinch_gesture tr f) = ?tr1"
      using True window_push [OF Cons.prems, of "raw_pinch f"]
      by (simp add: detect_pinch_step Let_def)
    have "length (pinch_history ?tr1) \<le> 3"
      by (simp add: length_newest)
    from Cons.IH [OF this]
    have "pinch_history (fst (pinch_trace ?tr1 fs)) = newest 3 (newest 3 ?h @ ?rest)"
      by simp
    also have "\<dots> = newest 3 (?h @ ?rest)"
      by (rule newest_append)
    also have "?h @ ?rest
                 = pinch_history tr @ map raw_pinch (filter (\<lambda>f. 21 \<le> length f) (f # fs))"
      using True by simp
    finally show ?thesis
      by (simp only: fst_pinch_trace_Cons step)
  next
    case False
    have "fst (detect_pinch_gesture tr f) = tr"
      using False by (simp add: detect_pinch_short)
    then show ?thesis
      using False Cons by (simp only: fst_pinch_trace_Cons) simp
  qed
qed

lemma raw_pinch_near: "raw_pinch (frame_of near_pose) = True"
  by (simp add: raw_pinch_def frame_of_nth near_pose_def lm_x_def lm_y_def sqrt_less_40)

lemma raw_pinch_far: "raw_pinch (frame_of far_pose) = False"
  by (simp add: raw_pinch_def frame_of_nth far_pose_def lm_x_def lm_y_def sqrt_less_40)

lemma pinch_examples:
  "snd (pinch_trace init_tracker [frame_of near_pose, frame_of near_pose, frame_of far_pose])
     = [False, False, True]"
  "snd (pinch_trace init_tracker [frame_of far_pose, frame_of far_pose, frame_of near_pose])
     = [False, False, False]"
  by (simp_all add: detect_pinch_step length_frame_of raw_pinch_near raw_pinch_far
        init_tracker_def Let_def)

text \<open>
  C6. The pinch window has size 3 and is a bounded FIFO. On a frame of at least 21
  landmarks, with a window of at most 3 entries, \<^verbatim>\<open>detect_pinch_gesture\<close> appends
  the raw sample and keeps the newest 3 entries; the stable flag is true exactly when
  the window then holds 3 entries of which at least 2 are true. From the initial
  tracker the window after any sequence of frames is the newest 3 raw samples of the
  frames with at least 21 landmarks. The samples true, true, false end with the flag
  true; the samples false, false, true end with the flag false.
\<close>

theorem pinch_window_fifo:
  assumes "length (pinch_history tr) \<le> 3" and "21 \<le> length lms"
  shows "pinch_history (fst (detect_pinch_gesture tr lms))
           = newest 3 (pinch_history tr @ [raw_pinch lms])
         \<and> length (pinch_history (fst (detect_pinch_gesture tr lms))) \<le> 3
         \<and> fst (snd (detect_pinch_gesture tr lms))
             = (length (pinch_history (fst (detect_pinch_gesture tr lms))) = 3
                \<and> 2 \<le> length (filter (\<lambda>b. b) (pinch_history (fst (detect_pinch_gesture tr lms)))))
         \<and> pinch_history (fst (pinch_trace init_tracker frames))
             = newest 3 (map raw_pinch (filter (\<lambda>f. 21 \<le> length f) frames))
         \<and> map raw_pinch [frame_of near_pose, frame_of near_pose, frame_of far_pose]
             = [True, True, False]
         \<and> snd (pinch_trace init_tracker
                  [frame_of near_pose, frame_of near_pose, frame_of far_pose])
             = [False, False, True]
         \<and> map raw_pinch [frame_of far_pose, frame_of far_pose, frame_of near_pose]
             = [False, False, True]
         \<and> snd (pinch_trace init_tracker
                  [frame_of far_pose, frame_of far_pose, frame_of near_pose])
             = [False, False, False]"
proof -
  let ?w = "newest 3 (pinch_history tr @ [raw_pinch lms])"
  have step: "detect_pinch_gesture tr lms =
      (tr\<lparr>pinch_history := ?w\<rparr>,
       length ?w \<ge> 3 \<and> sum_list (map of_bool ?w) \<ge> (2::nat),
       Some (calculate_distance (lm_x (lms ! 4), lm_y (lms ! 4))
               (lm_x (lms ! 8), lm_y (lms ! 8))))"
    using assms(2) window_push [OF assms(1), of "raw_pinch lms"]
    by (simp add: detect_pinch_step Let_def)
  have len: "length ?w \<le> 3"
    by (rule length_newest)
  have a: "pinch_history (fst (detect_pinch_gesture tr lms)) = ?w"
    using step by simp
  have c: "fst (snd (detect_pinch_gesture tr lms))
             = (length ?w = 3 \<and> 2 \<le> length (filter (\<lambda>b. b) ?w))"
    using len unfolding step sum_of_bool_filter by auto
  have t: "pinch_history (fst (pinch_trace init_tracker frames))
             = newest 3 (map raw_pinch (filter (\<lambda>f. 21 \<le> length f) frames))"
    using pinch_trace_window [of init_tracker frames] by (simp add: init_tracker_def)
  show ?thesis
    unfolding a using len c t pinch_examples raw_pinch_near raw_pinch_far by simp
qed

theorem pinch_window_fifo_witness:
  "pinch_history (fst (detect_pinch_gesture (init_tracker\<lparr>pinch_history := [False, True, True]\<rparr>)
      (frame_of far_pose))) = [True, True, False]
   \<and> fst (snd (detect_pinch_gesture (init_tracker\<lparr>pinch_history := [False, True, True]\<rparr>)
      (frame_of far_pose))) = True"
proof -
  let ?tr = "init_tracker\<lparr>pinch_history := [False, True, True]\<rparr>"
  have h: "length (pinch_history ?tr) \<le> 3" "21 \<le> length (frame_of far_pose)"
    by (simp_all add: length_frame_of)
  show ?thesis
    using pinch_window_fifo [OF h, of "[]"]
    by (simp add: raw_pinch_far newest_def)
qed


section \<open>Gesture classification\<close>

lemma upt_5: "[0..<5] = [0, 1, 2, 3, 4]"
  by (simp add: upt_rec)

lemma detect_pinch_keeps_cursor_finger:
  "cursor_finger (fst (detect_pinch_gesture tr lms)) = cursor_finger tr"
  by (simp add: detect_pinch_gesture_def Let_def split: option.splits)

text \<open>
  C3. On a frame of exactly 21 landmarks \<^verbatim>\<open>detect_gestures\<close> returns the first
  label that matches, in the order pinch, point, peace, fist, open\_hand, other: pinch
  when the stable flag of the pinch detector is set, whatever the fingers do; else
  point when the cursor finger (index, or else pinky) is up and the other three
  non-thumb fingers are folded; else peace when index and middle are up and ring and
  pinky folded; else fist when at most one of the five fingers is up; else open\_hand
  when at least four are up; else other.
\<close>

theorem detect_gestures_precedence:
  assumes "length lms = 21"
  shows "snd (detect_gestures tr lms) =
     (let up = is_finger_up lms;
          total = (of_bool (up 0) + of_bool (up 1) + of_bool (up 2) + of_bool (up 3)
                   + of_bool (up 4) :: nat);
          stable = fst (snd (detect_pinch_gesture tr lms))
      in if stable then ''pinch''
         else if cursor_finger tr = ''index'' \<and> up 1 \<and> \<not> up 2 \<and> \<not> up 3 \<and> \<not> up 4
           then ''point''
         else if cursor_finger tr \<noteq> ''index'' \<and> up 4 \<and> \<not> up 1 \<and> \<not> up 2 \<and> \<not> up 3
           then ''point''
         else if up 1 \<and> up 2 \<and> \<not> up 3 \<and> \<not> up 4 then ''peace''
         else if total \<le> 1 then ''fist''
         else if total \<ge> 4 then ''open_hand''
         else ''other'')"
proof -
  obtain tr1 stable d where p: "detect_pinch_gesture tr lms = (tr1, stable, d)"
    by (cases "detect_pinch_gesture tr lms") auto
  have cf: "cursor_finger tr1 = cursor_finger tr"
    using detect_pinch_keeps_cursor_finger [of tr lms] p by simp
  show ?thesis
    using assms
    by (simp add: detect_gestures_def p cf upt_5 Let_def)
qed

theorem detect_gestures_precedence_witness:
  "snd (detect_gestures init_tracker (frame_of index_only_pose)) = ''point''
   \<and> snd (detect_gestures (init_tracker\<lparr>pinch_history := [True, True]\<rparr>)
            (frame_of pinching_index_pose)) = ''pinch''"
proof -
  have up: "is_finger_up (frame_of index_only_pose) 0 = False"
      "is_finger_up (frame_of index_only_pose) 1 = True"
      "is_finger_up (frame_of index_only_pose) (Suc 0) = True"
      "is_finger_up (frame_of index_only_pose) 2 = False"
      "is_finger_up (frame_of index_only_pose) 3 = False"
      "is_finger_up (frame_of index_only_pose) 4 = False"
    by (simp_all add: is_finger_up_def length_frame_of frame_of_nth index_only_pose_def
          tip_ids_def pip_ids_def lm_x_def lm_y_def Let_def)
  have cf: "cursor_finger init_tracker = ''index''"
    by (simp add: init_tracker_def)
  have st: "fst (snd (detect_pinch_gesture init_tracker (frame_of index_only_pose))) = False"
    by (simp add: detect_pinch_step length_frame_of init_tracker_def Let_def)
  have st2: "fst (snd (detect_pinch_gesture (init_tracker\<lparr>pinch_history := [True, True]\<rparr>)
            (frame_of pinching_index_pose))) = True"
    by (simp add: detect_pinch_step length_frame_of init_tracker_def Let_def raw_pinch_def
          frame_of_nth pinching_index_pose_def index_only_pose_def lm_x_def lm_y_def sqrt_less_40)
  show ?thesis
    using detect_gestures_precedence [OF length_frame_of, of init_tracker index_only_pose]
      detect_gestures_precedence [OF length_frame_of,
        of "init_tracker\<lparr>pinch_history := [True, True]\<rparr>" pinching_index_pose]
    by (simp add: up st st2 cf Let_def)
qed

section \<open>Feedback weights and promotion\<close>

lemma fold_enqueue_best_score [simp]:
  "best_score (fold (enqueue_neighbor sc) ns opt) = best_score opt"
  by (induction ns arbitrary: opt) (auto simp: enqueue_neighbor_def Let_def)

lemma fold_enqueue_best_settings [simp]:
  "best_settings (fold (enqueue_neighbor sc) ns opt) = best_settings opt"
  by (induction ns arbitrary: opt) (auto simp: enqueue_neighbor_def Let_def)

lemma get_next_best_score [simp]: "best_score (fst (get_next_settings opt)) = best_score opt"
  by (simp add: get_next_settings_def split: list.splits prod.splits)

lemma get_next_best_settings [simp]: "best_settings (fst (get_next_settings opt)) = best_settings opt"
  by (simp add: get_next_settings_def split: list.splits prod.splits)

lemma get_next_visited [simp]: "visited_settings (fst (get_next_settings opt)) = visited_settings opt"
  by (simp add: get_next_settings_def split: list.splits prod.splits)

lemma get_next_queue [simp]: "search_queue (fst (get_next_settings opt)) = tl (search_queue opt)"
  by (simp add: get_next_settings_def split: list.splits prod.splits)

lemma bfs_best_score:
  "best_score (fst (bfs_optimize opt sc fb))
     = (if sc * interpret_feedback fb > best_score opt then sc * interpret_feedback fb
        else best_score opt)"
  by (simp add: bfs_optimize_def Let_def)

text \<open>
  C4. \<^verbatim>\<open>interpret_feedback\<close> maps much\_faster to 1.5, faster to 1.2, perfect to
  2.0, slower to 0.8, much\_slower to 0.6, sharper to 1.3, smoother to 1.1 and every
  other label to 1.0. An optimization call computes the adjusted score as the raw score
  times the weight and sets \<open>best_score\<close> to it exactly when it is greater than
  \<open>best_score\<close>. Raw score 80 with "perfect" gives 160 and replaces a best score
  of 0; raw score 10 with "much\_slower" gives 6 and leaves a best score of 50.
\<close>

theorem feedback_weight_and_promotion:
  "interpret_feedback fb =
     (if fb = ''much_faster'' then 1.5 else if fb = ''faster'' then 1.2
      else if fb = ''perfect'' then 2.0 else if fb = ''slower'' then 0.8
      else if fb = ''much_slower'' then 0.6 else if fb = ''sharper'' then 1.3
      else if fb = ''smoother'' then 1.1 else 1.0)
   \<and> best_score (fst (bfs_optimize opt sc fb))
       = (if sc * interpret_feedback fb > best_score opt then sc * interpret_feedback fb
          else best_score opt)
   \<and> 80 * interpret_feedback ''perfect'' = 160
   \<and> best_score (fst (bfs_optimize (opt\<lparr>best_score := 0\<rparr>) 80 ''perfect'')) = 160
   \<and> 10 * interpret_feedback ''much_slower'' = 6
   \<and> best_score (fst (bfs_optimize (opt\<lparr>best_score := 50\<rparr>) 10 ''much_slower'')) = 50"
  by (simp add: bfs_best_score) (simp add: interpret_feedback_def)

theorem feedback_weight_and_promotion_witness:
  "best_score (fst (bfs_optimize init_optimizer 80 ''perfect'')) = 160
   \<and> best_score (fst (bfs_optimize (init_optimizer\<lparr>best_score := 50\<rparr>) 10 ''much_slower'')) = 50
   \<and> best_score (fst (bfs_optimize init_optimizer 7 ''unknown'')) = 7"
  using feedback_weight_and_promotion [of "''perfect''" init_optimizer 80]
    feedback_weight_and_promotion [of "''much_slower''" "init_optimizer\<lparr>best_score := 50\<rparr>" 10]
    feedback_weight_and_promotion [of "''unknown''" init_optimizer 7]
  by (simp add: init_optimizer_def)


section \<open>Deduplication of the frontier\<close>

lemma enqueue_neighbor_visited:
  "visited_settings (enqueue_neighbor sc n opt) = insert (settings_to_key n) (visited_settings opt)"
  by (auto simp: enqueue_neighbor_def Let_def)

lemma enqueue_neighbor_queue:
  "search_queue (enqueue_neighbor sc n opt)
     = (if settings_to_key n \<in> visited_settings opt then search_queue opt
        else search_queue opt @ [(n, sc)])"
  by (simp add: enqueue_neighbor_def Let_def)

lemma enqueue_neighbor_inv: "dedup_inv opt \<Longrightarrow> dedup_inv (enqueue_neighbor sc n opt)"
  by (auto simp: dedup_inv_def frontier_keys_def enqueue_neighbor_def Let_def)

lemma fold_enqueue_inv: "dedup_inv opt \<Longrightarrow> dedup_inv (fold (enqueue_neighbor sc) ns opt)"
  by (induction ns arbitrary: opt) (simp_all add: enqueue_neighbor_inv)

lemma fold_enqueue_visited:
  "visited_settings (fold (enqueue_neighbor sc) ns opt)
     = settings_to_key ` set ns \<union> visited_settings opt"
  by (induction ns arbitrary: opt) (auto simp: enqueue_neighbor_visited)

lemma fold_enqueue_seen:
  "settings_to_key ` set ns \<subseteq> visited_settings opt
   \<Longrightarrow> fold (enqueue_neighbor sc) ns opt = opt"
  by (induction ns arbitrary: opt) (auto simp: enqueue_neighbor_def Let_def)

lemma get_next_inv: "dedup_inv opt \<Longrightarrow> dedup_inv (fst (get_next_settings opt))"
  by (cases "search_queue opt")
     (auto simp: dedup_inv_def frontier_keys_def get_next_settings_def split: prod.splits)

lemma promote_inv:
  "dedup_inv opt \<Longrightarrow> dedup_inv (opt\<lparr>best_score := b, best_settings := p\<rparr>)"
  by (simp add: dedup_inv_def frontier_keys_def)

lemma bfs_optimize_inv: "dedup_inv opt \<Longrightarrow> dedup_inv (fst (bfs_optimize opt sc fb))"
  by (simp add: bfs_optimize_def Let_def get_next_inv promote_inv fold_enqueue_inv)

lemma run_optimizer_inv: "dedup_inv opt \<Longrightarrow> dedup_inv (run_optimizer opt calls)"
  by (induction opt calls rule: run_optimizer.induct) (simp_all add: bfs_optimize_inv)

lemma init_optimizer_inv: "dedup_inv init_optimizer"
  by (simp add: dedup_inv_def frontier_keys_def init_optimizer_def)

lemma bfs_optimize_visited:
  "visited_settings (fst (bfs_optimize opt sc fb))
     = settings_to_key ` set (generate_neighbors (best_settings opt)) \<union> visited_settings opt"
  by (simp add: bfs_optimize_def Let_def fold_enqueue_visited)

lemma bfs_optimize_best_settings:
  "best_settings (fst (bfs_optimize opt sc fb)) = best_settings opt"
  by (simp add: bfs_optimize_def Let_def)

lemma second_call_enqueues_nothing:
  "search_queue (fst (bfs_optimize (fst (bfs_optimize opt sc fb)) sc' fb'))
     = tl (search_queue (fst (bfs_optimize opt sc fb)))"
proof -
  let ?o1 = "fst (bfs_optimize opt sc fb)"
  have "settings_to_key ` set (generate_neighbors (best_settings ?o1)) \<subseteq> visited_settings ?o1"
    by (simp add: bfs_optimize_visited bfs_optimize_best_settings)
  then have "fold (enqueue_neighbor sc') (generate_neighbors (best_settings ?o1)) ?o1 = ?o1"
    by (rule fold_enqueue_seen)
  then show ?thesis
    by (simp add: bfs_optimize_def [of ?o1] Let_def)
qed

lemma bfs_optimize_first_call_example:
  "map fst (search_queue (fst (bfs_optimize init_optimizer 80 ''perfect'')))
     = [\<lparr> sensitivity = 0.9, smoothing = 0.3, acceleration = 1.5 \<rparr>,
        \<lparr> sensitivity = 1.0, smoothing = 0.35, acceleration = 1.5 \<rparr>,
        \<lparr> sensitivity = 1.0, smoothing = 0.25, acceleration = 1.5 \<rparr>,
        \<lparr> sensitivity = 1.0, smoothing = 0.3, acceleration = 1.6 \<rparr>,
        \<lparr> sensitivity = 1.0, smoothing = 0.3, acceleration = 1.4 \<rparr>]"
  by (simp add: bfs_optimize_def init_optimizer_def generate_neighbors_def param_get_def
        param_set_def step_size_def get_min_value_def get_max_value_def enqueue_neighbor_def
        settings_to_key_def py_round2_def round_half_even_def get_next_settings_def Let_def)

text \<open>
  C5. The visited set only grows over an optimization call (hence over every sequence
  of calls). A neighbour is appended to the frontier only if its key is not in the
  visited set, and its key is in the visited set afterwards. After every sequence of
  calls from the initial optimizer the keys of the frontier entries are pairwise
  distinct and all visited. A second optimization call enqueues nothing: it only
  pops the head of the frontier the first call left.
\<close>

theorem frontier_dedup:
  "visited_settings opt \<subseteq> visited_settings (fst (bfs_optimize opt sc fb))
   \<and> search_queue (enqueue_neighbor sc n opt)
       = (if settings_to_key n \<in> visited_settings opt then search_queue opt
          else search_queue opt @ [(n, sc)])
   \<and> visited_settings (enqueue_neighbor sc n opt)
       = insert (settings_to_key n) (visited_settings opt)
   \<and> distinct (frontier_keys (run_optimizer init_optimizer calls))
   \<and> set (frontier_keys (run_optimizer init_optimizer calls))
       \<subseteq> visited_settings (run_optimizer init_optimizer calls)
   \<and> search_queue (fst (bfs_optimize (fst (bfs_optimize opt sc fb)) sc' fb'))
       = tl (search_queue (fst (bfs_optimize opt sc fb)))"
proof -
  have "dedup_inv (run_optimizer init_optimizer calls)"
    by (rule run_optimizer_inv [OF init_optimizer_inv])
  then show ?thesis
    using second_call_enqueues_nothing [of opt sc fb sc' fb']
    by (simp add: dedup_inv_def bfs_optimize_visited enqueue_neighbor_queue
          enqueue_neighbor_visited)
qed

section \<open>Coordinate mapping\<close>

lemma jitter_keeps_fields [simp]:
  "prev_x (fst (apply_jitter_filter c x y)) = prev_x c"
  "prev_y (fst (apply_jitter_filter c x y)) = prev_y c"
  "screen_width (fst (apply_jitter_filter c x y)) = screen_width c"
  "screen_height (fst (apply_jitter_filter c x y)) = screen_height c"
  by (simp_all add: apply_jitter_filter_def Let_def)

lemma py_int_clamp:
  assumes "0 \<le> n"
  shows "0 \<le> py_int (max 0 (min (real_of_int n) v))"
    and "py_int (max 0 (min (real_of_int n) v)) \<le> n"
proof -
  let ?z = "max 0 (min (real_of_int n) v)"
  have z: "0 \<le> ?z" "?z \<le> real_of_int n"
    using assms by auto
  then have "py_int ?z = \<lfloor>?z\<rfloor>"
    by (simp add: py_int_def)
  moreover have "0 \<le> \<lfloor>?z\<rfloor>" "\<lfloor>?z\<rfloor> \<le> n"
    using z by (simp_all add: floor_le_iff le_floor_iff)
  ultimately show "0 \<le> py_int ?z" and "py_int ?z \<le> n"
    by simp_all
qed


lemma sqrt_gt_15: "(15 < sqrt x) = (225 < x)"
proof -
  have "sqrt 225 = 15"
    by (rule real_sqrt_unique) simp_all
  then show ?thesis
    by (metis real_sqrt_less_iff)
qed

lemma map_coordinates_clamped:
  assumes "cursor_enabled c" "1 \<le> screen_width c" "1 \<le> screen_height c"
    and "\<not> (prev_x c = 0 \<and> prev_y c = 0)"
    and "map_coordinates c hx hy fw fh = Inr ((x, y), c')"
  shows "0 \<le> x \<and> x \<le> screen_width c - 1 \<and> 0 \<le> y \<and> y \<le> screen_height c - 1"
proof -
  obtain tx ty where t: "scaled_target c hx hy fw fh = (tx, ty)"
    by (cases "scaled_target c hx hy fw fh") auto
  obtain c1 fx fy where j: "apply_jitter_filter c tx ty = (c1, fx, fy)"
    by (cases "apply_jitter_filter c tx ty") auto
  have f: "prev_x c1 = prev_x c" "prev_y c1 = prev_y c"
      "screen_width c1 = screen_width c" "screen_height c1 = screen_height c"
    using jitter_keeps_fields [of c tx ty] j by simp_all
  have w: "0 \<le> screen_width c - 1" and h: "0 \<le> screen_height c - 1"
    using assms(2,3) by simp_all
  from t have t': "tx = fst (scaled_target c hx hy fw fh)" "ty = snd (scaled_target c hx hy fw fh)"
    by simp_all
  show ?thesis
    using assms(1,4,5) j f py_int_clamp [OF w] py_int_clamp [OF h]
    unfolding t' scaled_target_def
    by (auto simp: map_coordinates_def Let_def split: if_splits)
qed

lemma map_coordinates_seed:
  assumes "cursor_enabled c" "prev_x c = 0" "prev_y c = 0" "fw \<noteq> 80" "fh \<noteq> 80"
  shows "map_coordinates c hx hy fw fh =
     (let (tx, ty) = scaled_target c hx hy fw fh;
          (c1, fx, fy) = apply_jitter_filter c tx ty
      in Inr ((py_int fx, py_int fy), c1\<lparr>prev_x := fx, prev_y := fy\<rparr>))"
proof -
  obtain tx ty where t: "scaled_target c hx hy fw fh = (tx, ty)"
    by (cases "scaled_target c hx hy fw fh") auto
  obtain c1 fx fy where j: "apply_jitter_filter c tx ty = (c1, fx, fy)"
    by (cases "apply_jitter_filter c tx ty") auto
  have f: "prev_x c1 = 0" "prev_y c1 = 0"
    using jitter_keeps_fields [of c tx ty] j assms(2,3) by simp_all
  from t have t': "tx = fst (scaled_target c hx hy fw fh)" "ty = snd (scaled_target c hx hy fw fh)"
    by simp_all
  show ?thesis
    using assms(1,4,5) j f
    unfolding t t' scaled_target_def
    by (simp add: map_coordinates_def Let_def)
qed


lemma jitter_first_sample:
  "position_history c = [] \<Longrightarrow>
   apply_jitter_filter c x y = (c\<lparr>position_history := [(x, y)]\<rparr>, x, y)"
  by (simp add: apply_jitter_filter_def newest_def jitter_filter_size_def Let_def)

lemma py_int_exceeds:
  assumes "1 \<le> n" "1 < s"
  shows "n - 1 < py_int (1 * real_of_int n * s)"
proof -
  have "real_of_int n * 1 < real_of_int n * s"
    using assms by (intro mult_strict_left_mono) simp_all
  then have "real_of_int n \<le> real_of_int n * s"
    by simp
  then have "n \<le> \<lfloor>real_of_int n * s\<rfloor>"
    by (simp add: le_floor_iff)
  moreover have "0 \<le> real_of_int n * s"
    using assms by simp
  ultimately show ?thesis
    by (simp add: py_int_def)
qed

lemma map_coordinates_seed_exceeds:
  assumes "cursor_enabled c" "prev_x c = 0" "prev_y c = 0" "position_history c = []"
    and "1 < adaptive_sensitivity c" "1 \<le> screen_width c" "80 < fw" "80 < fh"
  shows "\<exists>hx hy x y c'. map_coordinates c hx hy fw fh = Inr ((x, y), c') \<and> screen_width c - 1 < x"
proof -
  let ?hx = "if inverse_cursor c then 40 else fw - 40"
  have ne: "fw \<noteq> 80" "fh \<noteq> 80"
    using assms(7,8) by simp_all
  have tx: "fst (scaled_target c ?hx 40 fw fh)
              = 1 * real_of_int (screen_width c) * adaptive_sensitivity c"
    using assms(7) by (simp add: scaled_target_def np_clip_def Let_def)
  obtain ty where t: "scaled_target c ?hx 40 fw fh
                        = (1 * real_of_int (screen_width c) * adaptive_sensitivity c, ty)"
    using tx by (cases "scaled_target c ?hx 40 fw fh") auto
  have "map_coordinates c ?hx 40 fw fh
          = Inr ((py_int (1 * real_of_int (screen_width c) * adaptive_sensitivity c), py_int ty),
                 c\<lparr>position_history :=
                      [(1 * real_of_int (screen_width c) * adaptive_sensitivity c, ty)],
                   prev_x := 1 * real_of_int (screen_width c) * adaptive_sensitivity c,
                   prev_y := ty\<rparr>)"
    unfolding map_coordinates_seed [OF assms(1,2,3) ne] t
    by (simp add: jitter_first_sample [OF assms(4)])
  then show ?thesis
    using py_int_exceeds [OF assms(6,5)] by blast
qed

lemma map_coordinates_error_iff:
  assumes "cursor_enabled c"
  shows "(map_coordinates c hx hy fw fh = Inl ZeroDivisionError) = (fw = 80 \<or> fh = 80)"
    and "(\<exists>p c'. map_coordinates c hx hy fw fh = Inr (p, c')) = (fw \<noteq> 80 \<and> fh \<noteq> 80)"
  using assms
  by (auto simp: map_coordinates_def Let_def split: prod.splits if_splits)


text \<open>
  C9. The cursor is enabled and the screen has at least one pixel in each direction.
  A call whose previous output is not exactly (0, 0) returns, when it returns, a
  coordinate within [0, screen\_width - 1] x [0, screen\_height - 1]. A call whose
  previous output is exactly (0, 0), whatever the rest of the state, returns the
  truncated jitter-filtered point unclamped and stores it as the previous output. With
  a sensitivity above 1.0 (and an empty position history) there are inputs for which
  this seed output exceeds screen\_width - 1.
\<close>

theorem map_coordinates_bounds:
  assumes "cursor_enabled c" and "1 \<le> screen_width c" and "1 \<le> screen_height c"
  shows "(\<not> (prev_x c = 0 \<and> prev_y c = 0) \<and> map_coordinates c hx hy fw fh = Inr ((x, y), c')
            \<longrightarrow> 0 \<le> x \<and> x \<le> screen_width c - 1 \<and> 0 \<le> y \<and> y \<le> screen_height c - 1)
         \<and> (prev_x c = 0 \<and> prev_y c = 0 \<and> fw \<noteq> 80 \<and> fh \<noteq> 80
            \<longrightarrow> map_coordinates c hx hy fw fh =
                  (let (tx, ty) = scaled_target c hx hy fw fh;
                       (c1, fx, fy) = apply_jitter_filter c tx ty
                   in Inr ((py_int fx, py_int fy), c1\<lparr>prev_x := fx, prev_y := fy\<rparr>)))
         \<and> (prev_x c = 0 \<and> prev_y c = 0 \<and> position_history c = []
              \<and> 1 < adaptive_sensitivity c \<and> 80 < fw \<and> 80 < fh
            \<longrightarrow> (\<exists>hx' hy' x' y' c''.
                   map_coordinates c hx' hy' fw fh = Inr ((x', y'), c'')
                   \<and> screen_width c - 1 < x'))"
  using map_coordinates_clamped [OF assms, of hx hy fw fh x y c']
    map_coordinates_seed [OF assms(1), of fw fh hx hy]
    map_coordinates_seed_exceeds [OF assms(1), of fw fh] assms(2)
  by blast

theorem map_coordinates_bounds_witness:
  "(\<exists>c'. map_coordinates ((init_controller 1920 1080)\<lparr>prev_x := 1900, prev_y := 540\<rparr>)
            600 240 640 480 = Inr ((1919, 540), c'))
   \<and> (1919 :: int)
       \<le> screen_width ((init_controller 1920 1080)\<lparr>prev_x := 1900, prev_y := 540\<rparr>) - 1
   \<and> (\<exists>c'. map_coordinates (set_adaptive_settings (init_controller 1920 1080) 2 0.2 1.2)
            600 240 640 480 = Inr ((3840, 1080), c'))"
proof -
  let ?c = "(init_controller 1920 1080)\<lparr>prev_x := 1900, prev_y := 540\<rparr>"
  let ?d = "set_adaptive_settings (init_controller 1920 1080) 2 0.2 1.2"
  have hc: "cursor_enabled ?c" "1 \<le> screen_width ?c" "1 \<le> screen_height ?c"
    by (simp_all add: init_controller_def)
  have hd: "cursor_enabled ?d" "1 \<le> screen_width ?d" "1 \<le> screen_height ?d"
    by (simp_all add: init_controller_def set_adaptive_settings_def)
  have ec: "\<exists>c'. map_coordinates ?c 600 240 640 480 = Inr ((1919, 540), c')"
    by (simp add: map_coordinates_def init_controller_def apply_jitter_filter_def newest_def
          jitter_filter_size_def np_clip_def velocity_smoothing_def py_int_def sqrt_gt_15
          Let_def)
  then obtain c' where r: "map_coordinates ?c 600 240 640 480 = Inr ((1919, 540), c')"
    by (rule exE)
  have moved: "\<not> (prev_x ?c = 0 \<and> prev_y ?c = 0)"
    by (simp add: init_controller_def)
  have inside: "(1919 :: int) \<le> screen_width ?c - 1"
    using mp [OF conjunct1 [OF map_coordinates_bounds [OF hc]] conjI [OF moved r]]
    by (rule_tac conjunct1 [OF conjunct2])
  have seed: "prev_x ?d = 0 \<and> prev_y ?d = 0 \<and> (640 :: int) \<noteq> 80 \<and> (480 :: int) \<noteq> 80"
    by (simp add: init_controller_def set_adaptive_settings_def)
  have sd: "map_coordinates ?d 600 240 640 480 =
              (let (tx, ty) = scaled_target ?d 600 240 640 480;
                   (c1, fx, fy) = apply_jitter_filter ?d tx ty
               in Inr ((py_int fx, py_int fy), c1\<lparr>prev_x := fx, prev_y := fy\<rparr>))"
    by (rule mp [OF conjunct1 [OF conjunct2 [OF map_coordinates_bounds [OF hd]]] seed])
  have ed: "\<exists>c'. map_coordinates ?d 600 240 640 480 = Inr ((3840, 1080), c')"
    unfolding sd
    by (simp add: scaled_target_def init_controller_def set_adaptive_settings_def
          apply_jitter_filter_def newest_def jitter_filter_size_def np_clip_def py_int_def
          Let_def)
  show ?thesis
    using ec inside ed by (intro conjI)
qed

text \<open>
  C10. With the cursor enabled, \<^verbatim>\<open>map_coordinates\<close> divides by
  frame\_width - 80 and frame\_height - 80 without a guard: it returns a coordinate
  whenever both frame dimensions exceed 80, and it raises \<^verbatim>\<open>ZeroDivisionError\<close>
  exactly when frame\_width = 80 or frame\_height = 80.
\<close>

theorem map_coordinates_division:
  assumes "cursor_enabled c"
  shows "(80 < fw \<and> 80 < fh \<longrightarrow> (\<exists>p c'. map_coordinates c hx hy fw fh = Inr (p, c')))
         \<and> (map_coordinates c hx hy fw fh = Inl ZeroDivisionError) = (fw = 80 \<or> fh = 80)"
  using map_coordinates_error_iff [OF assms, of hx hy fw fh]
  by auto

theorem map_coordinates_division_witness:
  "map_coordinates (init_controller 1920 1080) 320 240 80 480 = Inl ZeroDivisionError
   \<and> map_coordinates (init_controller 1920 1080) 320 240 640 80 = Inl ZeroDivisionError
   \<and> (\<exists>p c'. map_coordinates (init_controller 1920 1080) 320 240 640 480 = Inr (p, c'))"
proof -
  have h: "cursor_enabled (init_controller 1920 1080)"
    by (simp add: init_controller_def)
  show ?thesis
    using map_coordinates_division [OF h, of 80 480 320 240]
      map_coordinates_division [OF h, of 640 80 320 240]
      map_coordinates_division [OF h, of 640 480 320 240]
    by simp
qed

end
